theory Spec2Isabelle
  imports Main
begin

unbundle bit_operations_syntax

section \<open>Data model\<close>

text \<open>
  The program is \<^verbatim>\<open>src/fish.py\<close>. A Python \<^verbatim>\<open>bytes\<close> value is a list of
  naturals below 256 (the range is a hypothesis wherever a byte string is an input, and
  a lemma wherever it is an output), a Python \<^verbatim>\<open>str\<close> is a \<^typ>\<open>string\<close>,
  and the non-negative Python integers of the key exchange and of the two codecs are
  naturals. Every \<^verbatim>\<open>raise\<close> is a value of the type \<open>error\<close>: a function
  that can raise returns \<open>error + 'a\<close>.
\<close>

type_synonym bytes = "nat list"

datatype error = ValueError | IndexError | StructError | TypeError | AttributeError

definition startswith :: "string \<Rightarrow> string \<Rightarrow> bool" where
  "startswith s pre = (take (length pre) s = pre)"

text \<open>\<^verbatim>\<open>s.split(' ')\<close>: every space separates, empty pieces are kept.\<close>

fun split_sp :: "string \<Rightarrow> string list" where
  "split_sp [] = [[]]"
| "split_sp (c # cs) =
     (if c = CHR '' '' then [] # split_sp cs
      else (case split_sp cs of w # ws \<Rightarrow> (c # w) # ws | [] \<Rightarrow> [[c]]))"

text \<open>
  The second component of \<^verbatim>\<open>s.split(' ', 1)\<close>, for a string that holds a space:
  everything after the first space.
\<close>

definition split1_rest :: "string \<Rightarrow> string" where
  "split1_rest s = tl (dropWhile (\<lambda>c. c \<noteq> CHR '' '') s)"

text \<open>
  \<^verbatim>\<open>xs[i] = v\<close> on a Python list raises \<^verbatim>\<open>IndexError\<close> out of range.
\<close>

definition set_at :: "'a list \<Rightarrow> nat \<Rightarrow> 'a \<Rightarrow> error + 'a list" where
  "set_at xs i v = (if i < length xs then Inr (xs[i := v]) else Inl IndexError)"

subsection \<open>\<^verbatim>\<open>bytes2int\<close> and \<^verbatim>\<open>int2bytes\<close> (lines 511 to 528)\<close>

text \<open>
  \<^verbatim>\<open>n = 0; for p in b: n *= 256; n += p; return n\<close>
\<close>

fun bytes2int_loop :: "nat \<Rightarrow> bytes \<Rightarrow> nat" where
  "bytes2int_loop n [] = n"
| "bytes2int_loop n (p # b) = bytes2int_loop (n * 256 + p) b"

definition bytes2int :: "bytes \<Rightarrow> nat" where
  "bytes2int b = bytes2int_loop 0 b"

text \<open>
  \<^verbatim>\<open>b = []; while n: b.insert(0, n % 256); n //= 256\<close>
\<close>

function int2bytes_loop :: "nat \<Rightarrow> bytes \<Rightarrow> bytes" where
  "int2bytes_loop n b =
     (if n \<noteq> 0 then int2bytes_loop (n div 256) ((n mod 256) # b) else b)"
  by pat_completeness auto
termination
  by (relation "measure (\<lambda>(n, b). n)") auto

declare int2bytes_loop.simps [simp del]

definition int2bytes :: "nat \<Rightarrow> bytes" where
  "int2bytes n = (if n = 0 then [0] else int2bytes_loop n [])"

subsection \<open>The external cipher library\<close>

text \<open>
  The Blowfish primitive, its CBC mode and the standard base64 codec come from
  PyCryptodome and the Python library, not from this repository. They are parameters
  of the model. An ECB object encrypts and decrypts byte strings and may raise.
\<close>

record ecb =
  ecb_encrypt :: "bytes \<Rightarrow> error + bytes"
  ecb_decrypt :: "bytes \<Rightarrow> error + bytes"

text \<open>
  \<open>ecb_new k\<close> is \<^verbatim>\<open>CryptoBlowfish.new(k.encode('utf-8'), MODE_ECB)\<close>;
  \<open>cbc_encrypt k data\<close> is \<^verbatim>\<open>c = CryptoBlowfish.new(k.encode('utf-8'), MODE_CBC)\<close>
  followed by \<^verbatim>\<open>(c.iv, c.encrypt(data))\<close>; \<open>cbc_decrypt k iv data\<close> is
  \<^verbatim>\<open>CryptoBlowfish.new(k.encode('utf-8'), MODE_CBC, iv).decrypt(data)\<close>;
  \<open>std_b64encode\<close> and \<open>std_b64decode\<close> are \<^verbatim>\<open>base64.b64encode\<close> (decoded to a
  string) and \<^verbatim>\<open>base64.b64decode\<close>.
\<close>

record extlib =
  ecb_new :: "string \<Rightarrow> error + ecb"
  cbc_encrypt :: "string \<Rightarrow> bytes \<Rightarrow> error + (bytes \<times> bytes)"
  cbc_decrypt :: "string \<Rightarrow> bytes \<Rightarrow> bytes \<Rightarrow> error + bytes"
  std_b64encode :: "bytes \<Rightarrow> string"
  std_b64decode :: "string \<Rightarrow> error + bytes"

subsection \<open>Class \<^verbatim>\<open>Blowfish\<close> (lines 205 to 218)\<close>

text \<open>
  The object has the attribute \<^verbatim>\<open>blowfish\<close> only when the key is not empty; a
  key longer than 72 characters is cut to 72. Without the attribute, \<^verbatim>\<open>encrypt\<close>
  and \<^verbatim>\<open>decrypt\<close> raise \<^verbatim>\<open>AttributeError\<close>.
\<close>

type_synonym Blowfish = "ecb option"

definition Blowfish_init :: "extlib \<Rightarrow> string \<Rightarrow> error + Blowfish" where
  "Blowfish_init lib key =
     (if key \<noteq> [] then
        (let key = (if length key > 72 then take 72 key else key)
         in case ecb_new lib key of Inl e \<Rightarrow> Inl e | Inr c \<Rightarrow> Inr (Some c))
      else Inr None)"

definition Blowfish_decrypt :: "Blowfish \<Rightarrow> bytes \<Rightarrow> error + bytes" where
  "Blowfish_decrypt self data =
     (case self of None \<Rightarrow> Inl AttributeError | Some c \<Rightarrow> ecb_decrypt c data)"

definition Blowfish_encrypt :: "Blowfish \<Rightarrow> bytes \<Rightarrow> error + bytes" where
  "Blowfish_encrypt self data =
     (case self of None \<Rightarrow> Inl AttributeError | Some c \<Rightarrow> ecb_encrypt c data)"

subsection \<open>\<^verbatim>\<open>blowcrypt_b64encode\<close> and \<^verbatim>\<open>blowcrypt_b64decode\<close> (lines 222 to 253)\<close>

definition B64 :: string where
  "B64 = ''./0123456789abcdefghijklmnopqrstuvwxyzABCDEFGHIJKLMNOPQRSTUVWXYZ''"

text \<open>
  \<^verbatim>\<open>struct.unpack('>LL', c)\<close>: two big-endian unsigned 32-bit integers from exactly
  eight bytes, \<^verbatim>\<open>struct.error\<close> for any other length.
\<close>

definition unpack_LL :: "bytes \<Rightarrow> error + (nat \<times> nat)" where
  "unpack_LL c =
     (case c of
        [a0, a1, a2, a3, b0, b1, b2, b3] \<Rightarrow>
          Inr (((a0 * 256 + a1) * 256 + a2) * 256 + a3, ((b0 * 256 + b1) * 256 + b2) * 256 + b3)
      | _ \<Rightarrow> Inl StructError)"

text \<open>
  \<^verbatim>\<open>for i in range(n): res += B64[w & 0x3f]; w >>= 6\<close>, as the characters added.
\<close>

fun b64_emit :: "nat \<Rightarrow> nat \<Rightarrow> string" where
  "b64_emit 0 w = []"
| "b64_emit (Suc n) w = (B64 ! (w AND 0x3f)) # b64_emit n (drop_bit 6 w)"

function blowcrypt_b64encode_loop :: "bytes \<Rightarrow> string \<Rightarrow> error + string" where
  "blowcrypt_b64encode_loop s res =
     (if s \<noteq> [] then
        (case unpack_LL (take 8 s) of
           Inl e \<Rightarrow> Inl e
         | Inr (left, right) \<Rightarrow>
             blowcrypt_b64encode_loop (drop 8 s) (res @ b64_emit 6 right @ b64_emit 6 left))
      else Inr res)"
  by pat_completeness auto
termination
  by (relation "measure (\<lambda>(s, res). length s)") auto

declare blowcrypt_b64encode_loop.simps [simp del]

definition blowcrypt_b64encode :: "bytes \<Rightarrow> error + string" where
  "blowcrypt_b64encode s = blowcrypt_b64encode_loop s []"

text \<open>\<^verbatim>\<open>B64.index(p)\<close>: the first position of \<open>p\<close>, \<^verbatim>\<open>ValueError\<close> when absent.\<close>

fun str_index :: "string \<Rightarrow> char \<Rightarrow> error + nat" where
  "str_index [] p = Inl ValueError"
| "str_index (x # xs) p =
     (if x = p then Inr 0
      else (case str_index xs p of Inl e \<Rightarrow> Inl e | Inr n \<Rightarrow> Inr (Suc n)))"

text \<open>
  \<^verbatim>\<open>for i, p in enumerate(ps): w |= B64.index(p) << (i * 6)\<close>, from position \<open>i\<close>.
\<close>

fun b64_gather :: "nat \<Rightarrow> nat \<Rightarrow> string \<Rightarrow> error + nat" where
  "b64_gather w i [] = Inr w"
| "b64_gather w i (p # ps) =
     (case str_index B64 p of
        Inl e \<Rightarrow> Inl e
      | Inr v \<Rightarrow> b64_gather (w OR push_bit (i * 6) v) (Suc i) ps)"

text \<open>
  \<^verbatim>\<open>for i in range(0, 4): res.append((w & (0xFF << ((3 - i) * 8))) >> ((3 - i) * 8))\<close>
\<close>

definition word_bytes :: "nat \<Rightarrow> bytes" where
  "word_bytes w = map (\<lambda>i. drop_bit ((3 - i) * 8) (w AND push_bit ((3 - i) * 8) 0xFF)) [0..<4]"

function blowcrypt_b64decode_loop :: "string \<Rightarrow> bytes \<Rightarrow> error + bytes" where
  "blowcrypt_b64decode_loop s res =
     (if s \<noteq> [] then
        (case b64_gather 0 0 (take 6 s) of
           Inl e \<Rightarrow> Inl e
         | Inr right \<Rightarrow>
            (case b64_gather 0 0 (take 6 (drop 6 s)) of
               Inl e \<Rightarrow> Inl e
             | Inr left \<Rightarrow>
                 blowcrypt_b64decode_loop (drop 12 s) (res @ word_bytes left @ word_bytes right)))
      else Inr res)"
  by pat_completeness auto
termination
  by (relation "measure (\<lambda>(s, res). length s)") auto

declare blowcrypt_b64decode_loop.simps [simp del]

text \<open>
  The final \<^verbatim>\<open>bytes(res)\<close> raises for an element above 255; every element is the
  result of a shift of a masked byte (lemma \<open>word_bytes_range\<close>).
\<close>

definition blowcrypt_b64decode :: "string \<Rightarrow> error + bytes" where
  "blowcrypt_b64decode s = blowcrypt_b64decode_loop s []"

subsection \<open>\<^verbatim>\<open>padto\<close>, \<^verbatim>\<open>blowcrypt_pack\<close>, \<^verbatim>\<open>blowcrypt_unpack\<close> (lines 256 to 313)\<close>

text \<open>The callers pass the lengths 8 and 12 only; the assertion holds by construction.\<close>

definition padto :: "bytes \<Rightarrow> nat \<Rightarrow> bytes" where
  "padto msg len =
     (let L = length msg
      in if L mod len \<noteq> 0 then msg @ replicate (len - L mod len) 0 else msg)"

text \<open>
  \<open>blowcrypt_unpack\<close> calls \<^verbatim>\<open>padto\<close> on a \<^verbatim>\<open>str\<close>: adding the zero bytes to it
  raises \<^verbatim>\<open>TypeError\<close>, an aligned string is returned unchanged.
\<close>

definition padto_str :: "string \<Rightarrow> nat \<Rightarrow> error + string" where
  "padto_str msg len = (if length msg mod len \<noteq> 0 then Inl TypeError else Inr msg)"

text \<open>
  \<^verbatim>\<open>b.strip(b'\x00')\<close> removes the zero bytes at both ends of \<open>b\<close>;
  \<^verbatim>\<open>b.replace(b'\n', b'')\<close> removes every byte 10.
\<close>

definition bytes_strip :: "nat \<Rightarrow> bytes \<Rightarrow> bytes" where
  "bytes_strip z b = rev (dropWhile (\<lambda>x. x = z) (rev (dropWhile (\<lambda>x. x = z) b)))"

definition bytes_remove :: "nat \<Rightarrow> bytes \<Rightarrow> bytes" where
  "bytes_remove z b = filter (\<lambda>x. x \<noteq> z) b"

text \<open>Line 313: \<^verbatim>\<open>plain.strip(b'\x00').replace(b'\n', b'')\<close>.\<close>

definition strip_plain :: "bytes \<Rightarrow> bytes" where
  "strip_plain plain = bytes_remove 10 (bytes_strip 0 plain)"

definition blowcrypt_pack :: "extlib \<Rightarrow> bytes \<Rightarrow> Blowfish \<Rightarrow> string option \<Rightarrow> error + string" where
  "blowcrypt_pack lib msg cipher cbcKey =
     (case cbcKey of
        Some k \<Rightarrow>
          (case cbc_encrypt lib k (padto msg 8) of
             Inl e \<Rightarrow> Inl e
           | Inr (iv, enc) \<Rightarrow> Inr (''+OK *'' @ std_b64encode lib (iv @ enc)))
      | None \<Rightarrow>
          (case Blowfish_encrypt cipher (padto msg 8) of
             Inl e \<Rightarrow> Inl e
           | Inr enc \<Rightarrow>
               (case blowcrypt_b64encode enc of
                  Inl e \<Rightarrow> Inl e
                | Inr payload \<Rightarrow> Inr (''+OK '' @ payload))))"

definition blowcrypt_unpack :: "extlib \<Rightarrow> string \<Rightarrow> Blowfish \<Rightarrow> string \<Rightarrow> error + bytes" where
  "blowcrypt_unpack lib msg cipher key =
     (if \<not> (startswith msg ''+OK '' \<or> startswith msg ''mcps '') then Inl ValueError
      else
        let rest = split1_rest msg
        in if startswith rest ''*'' then
             (let rest = drop 1 rest;
                  rest = (if length rest mod 4 \<noteq> 0
                          then rest @ replicate (4 - length rest mod 4) CHR ''=''
                          else rest)
              in case std_b64decode lib rest of
                   Inl e \<Rightarrow> Inl e
                 | Inr raw \<Rightarrow>
                     (let iv = take 8 raw; raw = drop 8 raw
                      in case cbc_decrypt lib key iv (padto raw 8) of
                           Inl e \<Rightarrow> Inl e
                         | Inr plain \<Rightarrow> Inr (strip_plain plain)))
           else if length rest < 12 then Inl ValueError
           else
             (let rest = (if \<not> (length rest mod 12 = 0)
                          then take (length rest - length rest mod 12) rest
                          else rest)
              in case padto_str rest 12 of
                   Inl e \<Rightarrow> Inl ValueError
                 | Inr padded \<Rightarrow>
                     (case blowcrypt_b64decode padded of
                        Inl e \<Rightarrow> (if e = TypeError then Inl ValueError else Inl e)
                      | Inr raw \<Rightarrow>
                          if raw = [] then Inl ValueError
                          else (case Blowfish_decrypt cipher raw of
                                  Inl e \<Rightarrow> Inl e
                                | Inr plain \<Rightarrow> Inr (strip_plain plain)))))"

subsection \<open>The DH1080 group (lines 320 to 330)\<close>

definition g_dh1080 :: nat where
  "g_dh1080 = 2"

definition p_dh1080 :: nat where
  "p_dh1080 = 0xFBE1022E23D213E8ACFA9AE8B9DFADA3EA6B7AC7A7B7E95AB5EB2DF858921FEADE95E6AC7BE7DE6ADBAB8A783E7AF7A7FA6A2B7BEB1E72EAE2B72F9FA2BFB2A2EFBEFAC868BADB3E828FA8BADFADA3E4CC1BE7E8AFE85E9698A783EB68FA07A77AB6AD7BEB618ACF9CA2897EB28A6189EFA07AB99A8A7FA9AE299EFA7BA66DEAFEFBEFBF0B7D8B"

definition q_dh1080 :: nat where
  "q_dh1080 = (p_dh1080 - 1) div 2"

text \<open>\<^verbatim>\<open>pow(b, e, m)\<close> for a non-negative exponent and a modulus that is not zero.\<close>

definition pow3 :: "nat \<Rightarrow> nat \<Rightarrow> nat \<Rightarrow> nat" where
  "pow3 b e m = b ^ e mod m"

subsection \<open>\<^verbatim>\<open>dh1080_b64encode\<close> (lines 333 to 368)\<close>

definition b64 :: string where
  "b64 = ''ABCDEFGHIJKLMNOPQRSTUVWXYZabcdefghijklmnopqrstuvwxyz0123456789+/''"





subsection \<open>\<^verbatim>\<open>dh1080_b64decode\<close> (lines 371 to 426)\<close>

text \<open>
  \<^verbatim>\<open>buf = [0] * 256; for i in range(64): buf[ord(b64[i])] = i\<close>
\<close>

definition buf :: "nat list" where
  "buf = fold (\<lambda>i b. b[of_char (b64 ! i) := i]) [0..<64] (replicate 256 0)"

text \<open>\<^verbatim>\<open>buf[ord(s[k])]\<close>, for \<open>k\<close> below the length of \<open>s\<close>.\<close>

definition bufv :: "string \<Rightarrow> nat \<Rightarrow> nat" where
  "bufv s k = buf ! (of_char (s ! k))"

text \<open>
  \<^verbatim>\<open>for i in reversed(list(range(L - 1))): if buf[ord(s[i])] == 0: L -= 1 else: break\<close>.
  The first argument counts the indices still to visit: the next one is \<open>n - 1\<close>.
\<close>

fun dh1080_trim :: "nat \<Rightarrow> string \<Rightarrow> nat \<Rightarrow> nat" where
  "dh1080_trim 0 s L = L"
| "dh1080_trim (Suc i) s L = (if bufv s i = 0 then dh1080_trim i s (L - 1) else L)"

text \<open>
  The \<^verbatim>\<open>while True\<close> loop, with state \<open>(i, k, d)\<close>; every \<^verbatim>\<open>break\<close> returns
  \<open>(i, d)\<close>. A write \<open>d[i - 1] = v\<close> out of range raises \<^verbatim>\<open>IndexError\<close>.
\<close>

function dh1080_b64decode_loop ::
  "string \<Rightarrow> nat \<Rightarrow> nat \<Rightarrow> nat \<Rightarrow> nat list \<Rightarrow> error + (nat \<times> nat list)" where
  "dh1080_b64decode_loop s L i k d =
     (let i = i + 1
      in if \<not> k + 1 < L then Inr (i, d)
         else case set_at d (i - 1) (push_bit 2 (bufv s k) mod 0x100) of
           Inl e \<Rightarrow> Inl e
         | Inr d \<Rightarrow>
      let k = k + 1
      in if \<not> k < L then Inr (i, d)
         else case set_at d (i - 1) (d ! (i - 1) OR drop_bit 4 (bufv s k)) of
           Inl e \<Rightarrow> Inl e
         | Inr d \<Rightarrow>
      let i = i + 1
      in if \<not> k + 1 < L then Inr (i, d)
         else case set_at d (i - 1) (push_bit 4 (bufv s k) mod 0x100) of
           Inl e \<Rightarrow> Inl e
         | Inr d \<Rightarrow>
      let k = k + 1
      in if \<not> k < L then Inr (i, d)
         else case set_at d (i - 1) (d ! (i - 1) OR drop_bit 2 (bufv s k)) of
           Inl e \<Rightarrow> Inl e
         | Inr d \<Rightarrow>
      let i = i + 1
      in if \<not> k + 1 < L then Inr (i, d)
         else case set_at d (i - 1) (push_bit 6 (bufv s k) mod 0x100) of
           Inl e \<Rightarrow> Inl e
         | Inr d \<Rightarrow>
      let k = k + 1
      in if \<not> k < L then Inr (i, d)
         else case set_at d (i - 1) (d ! (i - 1) OR bufv s k mod 0x100) of
           Inl e \<Rightarrow> Inl e
         | Inr d \<Rightarrow> dh1080_b64decode_loop s L i (k + 1) d)"
  by pat_completeness auto
termination
  by (relation "measure (\<lambda>(s, L, i, k, d). L - k)") auto

declare dh1080_b64decode_loop.simps [simp del]

text \<open>
  The result is \<^verbatim>\<open>bytes(d[0:i - 1])\<close>; every element of \<open>d\<close> is below 256 (lemma
  \<open>dh1080_b64decode_range\<close>).
\<close>

definition dh1080_b64decode :: "string \<Rightarrow> error + bytes" where
  "dh1080_b64decode s =
     (let L = length s
      in if L < 2 then Inl ValueError
         else
           let L = dh1080_trim (L - 1) s L
           in if L < 2 then Inl ValueError
              else case dh1080_b64decode_loop s L 0 0 (replicate L 0) of
                     Inl e \<Rightarrow> Inl e
                   | Inr (i, d) \<Rightarrow> Inr (take (i - 1) d))"

subsection \<open>The key exchange (lines 429 to 501)\<close>

definition dh_validate_public :: "nat \<Rightarrow> nat \<Rightarrow> nat \<Rightarrow> bool" where
  "dh_validate_public public q p = (1 = pow3 public q p)"

record DH1080Ctx =
  ctx_public :: nat
  ctx_private :: nat
  ctx_secret :: nat
  ctx_state :: nat
  ctx_cbc :: bool

text \<open>
  The constructor draws \<^verbatim>\<open>urandom(bits // 8)\<close> until a key pair is accepted. The
  byte strings drawn are the second argument, in the order of the draws; the result is
  \<open>None\<close> when none of them is accepted, in which case the loop goes on drawing. The
  comparison \<^verbatim>\<open>dh_validate_public(...) == 1\<close> holds when the function returns
  \<^verbatim>\<open>True\<close>.
\<close>

fun DH1080Ctx_loop :: "DH1080Ctx \<Rightarrow> bytes list \<Rightarrow> DH1080Ctx option" where
  "DH1080Ctx_loop self [] = None"
| "DH1080Ctx_loop self (r # rs) =
     (let self = self\<lparr>ctx_private := bytes2int r\<rparr>;
          self = self\<lparr>ctx_public := pow3 g_dh1080 (ctx_private self) p_dh1080\<rparr>
      in if 2 \<le> ctx_public self \<and> ctx_public self \<le> p_dh1080 - 1 \<and>
            dh_validate_public (ctx_public self) q_dh1080 p_dh1080 = True
         then Some self
         else DH1080Ctx_loop self rs)"

definition DH1080Ctx_init :: "bool \<Rightarrow> bytes list \<Rightarrow> DH1080Ctx option" where
  "DH1080Ctx_init cbc draws =
     DH1080Ctx_loop \<lparr>ctx_public = 0, ctx_private = 0, ctx_secret = 0, ctx_state = 0, ctx_cbc = cbc\<rparr> draws"


text \<open>
  The body of either \<^verbatim>\<open>try\<close> block, with the flag for the legacy command: every
  exception raised in it is turned into \<^verbatim>\<open>ValueError\<close>, so the cause is not kept.
  The target \<^verbatim>\<open>cmd, public_raw, *rest\<close> needs two pieces at least.
\<close>

definition dh1080_unpack_body :: "bool \<Rightarrow> string \<Rightarrow> DH1080Ctx \<Rightarrow> (error + bool) \<times> DH1080Ctx" where
  "dh1080_unpack_body legacy msg ctx =
     (case split_sp msg of
        cmd # public_raw # rest \<Rightarrow>
          (case dh1080_b64decode public_raw of
             Inl e \<Rightarrow> (Inl ValueError, ctx)
           | Inr raw \<Rightarrow>
               (let public = bytes2int raw
                in if \<not> (1 < public \<and> public < p_dh1080) then (Inl ValueError, ctx)
                   else
                     (let ctx = ctx\<lparr>ctx_secret := pow3 public (ctx_private ctx) p_dh1080\<rparr>;
                          ctx = ctx\<lparr>ctx_cbc := (''CBC'' \<in> set rest \<or>
                                                 (legacy \<and> cmd = ''DH1080_INIT_CBC''))\<rparr>
                      in (Inr True, ctx))))
      | _ \<Rightarrow> (Inl ValueError, ctx))"

definition dh1080_unpack :: "string \<Rightarrow> DH1080Ctx \<Rightarrow> (error + bool) \<times> DH1080Ctx" where
  "dh1080_unpack msg ctx =
     (if \<not> startswith msg ''DH1080_'' then (Inl ValueError, ctx)
      else if ctx_state ctx = 0 then
        (if \<not> startswith msg ''DH1080_INIT '' \<and> \<not> startswith msg ''DH1080_INIT_CBC ''
         then (Inl ValueError, ctx)
         else dh1080_unpack_body True msg (ctx\<lparr>ctx_state := 1\<rparr>))
      else if ctx_state ctx = 1 then
        (if \<not> startswith msg ''DH1080_FINISH '' then (Inl ValueError, ctx)
         else dh1080_unpack_body False msg (ctx\<lparr>ctx_state := 1\<rparr>))
      else (Inr True, ctx))"

text \<open>
  Lines 571 and 588 of \<^verbatim>\<open>fish_modifier_in_notice_cb\<close>: the branch
  \<^verbatim>\<open>if not dh1080_unpack(...)\<close> is entered when the call returns, without raising,
  a value that is false.
\<close>

definition unpack_failed_branch :: "string \<Rightarrow> DH1080Ctx \<Rightarrow> bool" where
  "unpack_failed_branch msg ctx =
     (case fst (dh1080_unpack msg ctx) of Inl e \<Rightarrow> False | Inr r \<Rightarrow> \<not> r)"

subsection \<open>Notions the claims are stated with\<close>


text \<open>
  The public value that a message carries: the second piece of the message, decoded by
  \<open>dh1080_b64decode\<close> and read as a big-endian integer, as both branches of
  \<open>dh1080_unpack\<close> compute it.
\<close>

definition dh1080_public_of :: "string \<Rightarrow> nat option" where
  "dh1080_public_of msg =
     (case split_sp msg of
        cmd # public_raw # rest \<Rightarrow>
          (case dh1080_b64decode public_raw of Inl e \<Rightarrow> None | Inr raw \<Rightarrow> Some (bytes2int raw))
      | _ \<Rightarrow> None)"

text \<open>The command that \<open>dh1080_unpack\<close> accepts in the state of the context.\<close>

definition dh1080_command_ok :: "string \<Rightarrow> DH1080Ctx \<Rightarrow> bool" where
  "dh1080_command_ok msg ctx =
     (if ctx_state ctx = 0
      then startswith msg ''DH1080_INIT '' \<or> startswith msg ''DH1080_INIT_CBC ''
      else startswith msg ''DH1080_FINISH '')"

text \<open>
  The acceptance test of the specification (section 4.5), for a private exponent:
  \<open>2 \<le> public \<le> p - 2\<close> and \<open>public^q mod p = 1\<close>, where \<open>public = g^private mod p\<close>.
\<close>

definition spec_keypair_ok :: "nat \<Rightarrow> bool" where
  "spec_keypair_ok private =
     (let public = g_dh1080 ^ private mod p_dh1080
      in 2 \<le> public \<and> public \<le> p_dh1080 - 2 \<and> public ^ q_dh1080 mod p_dh1080 = 1)"

text \<open>
  The decrypt-side rule as the specification words it (section 4.1): strip the trailing
  zero bytes, then remove every newline byte.
\<close>

definition spec_strip_plain :: "bytes \<Rightarrow> bytes" where
  "spec_strip_plain plain =
     filter (\<lambda>x. x \<noteq> 10) (rev (dropWhile (\<lambda>x. x = 0) (rev plain)))"

section \<open>Big-endian integers\<close>

lemma bytes2int_loop_append:
  "bytes2int_loop n (xs @ ys) = bytes2int_loop (bytes2int_loop n xs) ys"
  by (induction xs arbitrary: n) simp_all

lemma int2bytes_loop_zero: "int2bytes_loop 0 b = b"
  by (subst int2bytes_loop.simps) simp

lemma int2bytes_loop_acc: "int2bytes_loop n b = int2bytes_loop n [] @ b"
proof (induction n arbitrary: b rule: less_induct)
  case (less n)
  show ?case
  proof (cases "n = 0")
    case True
    then show ?thesis by (simp add: int2bytes_loop_zero)
  next
    case False
    then have lt: "n div 256 < n" by simp
    have "int2bytes_loop n b = int2bytes_loop (n div 256) ((n mod 256) # b)"
      using False by (subst int2bytes_loop.simps) simp
    also have "\<dots> = int2bytes_loop (n div 256) [] @ ((n mod 256) # b)"
      by (rule less.IH [OF lt])
    also have "\<dots> = (int2bytes_loop (n div 256) [] @ [n mod 256]) @ b"
      by simp
    also have "int2bytes_loop (n div 256) [] @ [n mod 256] = int2bytes_loop (n div 256) [n mod 256]"
      by (rule less.IH [OF lt, symmetric])
    also have "\<dots> = int2bytes_loop n []"
      using False by (subst (2) int2bytes_loop.simps) simp
    finally show ?thesis .
  qed
qed

lemma int2bytes_loop_step:
  "n \<noteq> 0 \<Longrightarrow> int2bytes_loop n [] = int2bytes_loop (n div 256) [] @ [n mod 256]"
  by (subst int2bytes_loop.simps, subst int2bytes_loop_acc) simp

lemma bytes2int_int2bytes_loop: "bytes2int_loop 0 (int2bytes_loop n []) = n"
proof (induction n rule: less_induct)
  case (less n)
  show ?case
  proof (cases "n = 0")
    case True
    then show ?thesis by (simp add: int2bytes_loop_zero)
  next
    case False
    then have lt: "n div 256 < n" by simp
    show ?thesis
      using less.IH [OF lt]
      by (simp add: int2bytes_loop_step [OF False] bytes2int_loop_append)
  qed
qed

lemma int2bytes_loop_hd:
  "n \<noteq> 0 \<Longrightarrow> int2bytes_loop n [] \<noteq> [] \<and> hd (int2bytes_loop n []) \<noteq> 0"
proof (induction n rule: less_induct)
  case (less n)
  then have lt: "n div 256 < n" by simp
  show ?case
  proof (cases "n div 256 = 0")
    case True
    then have "n mod 256 = n" by (simp add: div_eq_0_iff)
    with True show ?thesis
      using less.prems by (simp add: int2bytes_loop_step [OF less.prems] int2bytes_loop_zero)
  next
    case False
    from less.IH [OF lt False] show ?thesis
      by (simp add: int2bytes_loop_step [OF less.prems])
  qed
qed

lemma int2bytes_loop_range: "\<forall>x \<in> set (int2bytes_loop n []). x < 256"
proof (induction n rule: less_induct)
  case (less n)
  show ?case
  proof (cases "n = 0")
    case True
    then show ?thesis by (simp add: int2bytes_loop_zero)
  next
    case False
    then have lt: "n div 256 < n" by simp
    from less.IH [OF lt] show ?thesis
      by (simp add: int2bytes_loop_step [OF False])
  qed
qed

lemma int2bytes_range: "\<forall>x \<in> set (int2bytes n). x < 256"
  using int2bytes_loop_range [of n] by (simp add: int2bytes_def)

text \<open>
  Claim C9. For every non-negative integer \<open>n\<close>, \<open>bytes2int (int2bytes n) = n\<close>; the
  result of \<open>int2bytes\<close> is a non-empty string of bytes, most significant byte first,
  whose first byte is not zero, except that \<open>n = 0\<close> gives the single byte \<open>0x00\<close>.
\<close>

theorem int2bytes_roundtrip:
  "bytes2int (int2bytes n) = n \<and> int2bytes n \<noteq> [] \<and> (\<forall>x \<in> set (int2bytes n). x < 256) \<and>
   (if n = 0 then int2bytes n = [0] else hd (int2bytes n) \<noteq> 0)"
  using bytes2int_int2bytes_loop [of n] int2bytes_loop_hd [of n] int2bytes_range [of n]
  by (simp add: bytes2int_def int2bytes_def)

theorem int2bytes_roundtrip_witness:
  "bytes2int (int2bytes 258) = 258 \<and> int2bytes 258 = [1, 2] \<and> int2bytes 0 = [0] \<and>
   bytes2int [0] = 0"
  using int2bytes_roundtrip [of 258] int2bytes_roundtrip [of 0]
  by (simp add: bytes2int_def int2bytes_def int2bytes_loop.simps)

lemma p_dh1080_gt: "2 < p_dh1080"
  by (simp add: p_dh1080_def)

lemma q_dh1080_odd: "odd q_dh1080"
  by (simp add: q_dh1080_def p_dh1080_def)

lemma pred_sq_mod: 
  assumes "1 < (p::nat)"
  shows "(p - 1) * (p - 1) mod p = 1"
proof -
  obtain r where r: "p = r + 2" using assms by (metis add_2_eq_Suc' less_imp_Suc_add One_nat_def Suc_lessE add.commute)
  have "(p - 1) * (p - 1) = r * p + 1" using r by (simp add: algebra_simps)
  then have "(p - 1) * (p - 1) mod p = (1 + r * p) mod p" by (simp add: add.commute)
  also have "\<dots> = 1 mod p" by (rule mod_mult_self1)
  finally show ?thesis using assms by simp
qed

lemma pred_pow_odd_mod:
  assumes "1 < (p::nat)" and "odd n"
  shows "(p - 1) ^ n mod p = p - 1"
proof -
  from \<open>odd n\<close> obtain k where n: "n = 2 * k + 1" by (elim oddE)
  have sq: "((p - 1) ^ 2) ^ k mod p = 1"
  proof -
    have "((p - 1) ^ 2) ^ k mod p = ((p - 1) ^ 2 mod p) ^ k mod p"
      by (simp add: power_mod)
    also have "(p - 1) ^ 2 mod p = 1"
      using pred_sq_mod [OF assms(1)] by (simp add: power2_eq_square)
    finally show ?thesis using assms(1) by simp
  qed
  have "(p - 1) ^ n = ((p - 1) ^ 2) ^ k * (p - 1)"
    by (simp add: n power_mult)
  then have "(p - 1) ^ n mod p = (((p - 1) ^ 2) ^ k mod p) * (p - 1) mod p"
    by (simp add: mod_mult_left_eq)
  then show ?thesis using sq assms(1) by simp
qed

lemma pred_p_not_valid: "\<not> dh_validate_public (p_dh1080 - 1) q_dh1080 p_dh1080"
proof -
  have "pow3 (p_dh1080 - 1) q_dh1080 p_dh1080 = p_dh1080 - 1"
    unfolding pow3_def using p_dh1080_gt q_dh1080_odd by (intro pred_pow_odd_mod) auto
  then show ?thesis using p_dh1080_gt by (simp add: dh_validate_public_def)
qed


section \<open>Key generation\<close>

lemma accept_iff_spec:
  "(2 \<le> pow3 g_dh1080 x p_dh1080 \<and> pow3 g_dh1080 x p_dh1080 \<le> p_dh1080 - 1 \<and>
     dh_validate_public (pow3 g_dh1080 x p_dh1080) q_dh1080 p_dh1080 = True) = spec_keypair_ok x"
proof -
  define v where "v = pow3 g_dh1080 x p_dh1080"
  have "v \<noteq> p_dh1080 - 1" if "dh_validate_public v q_dh1080 p_dh1080"
    using that pred_p_not_valid by auto
  then have "(v \<le> p_dh1080 - 1 \<and> dh_validate_public v q_dh1080 p_dh1080) =
             (v \<le> p_dh1080 - 2 \<and> dh_validate_public v q_dh1080 p_dh1080)"
    by (auto simp: le_less) 
  then show ?thesis
    unfolding spec_keypair_ok_def Let_def v_def [symmetric]
    by (auto simp: v_def pow3_def dh_validate_public_def)
qed

lemma DH1080Ctx_loop_find:
  "DH1080Ctx_loop self draws =
     (case find (\<lambda>r. spec_keypair_ok (bytes2int r)) draws of
        None \<Rightarrow> None
      | Some r \<Rightarrow> Some (self\<lparr>ctx_private := bytes2int r,
                             ctx_public := g_dh1080 ^ bytes2int r mod p_dh1080\<rparr>))"
proof (induction draws arbitrary: self)
  case Nil
  then show ?case by simp
next
  case (Cons r rs)
  show ?case
  proof (cases "spec_keypair_ok (bytes2int r)")
    case True
    then show ?thesis
      using accept_iff_spec [of "bytes2int r"] by (simp add: Let_def pow3_def)
  next
    case False
    then show ?thesis
      using accept_iff_spec [of "bytes2int r"] Cons.IH
      by (auto simp: Let_def pow3_def split: option.splits)
  qed
qed

lemma DH1080Ctx_init_fresh:
  "DH1080Ctx_init cbc draws = Some c \<Longrightarrow> ctx_state c = 0 \<and> ctx_secret c = 0"
  by (auto simp: DH1080Ctx_init_def DH1080Ctx_loop_find split: option.splits)

text \<open>
  Claim C4. The constructor returns the key pair of the first draw that passes the
  acceptance test of the specification, \<open>2 \<le> public \<le> p - 2\<close> and
  \<open>public^q mod p = 1\<close> with \<open>public = g^private mod p\<close>; every draw before it fails the
  test and is passed over, and when no draw passes, no key pair is returned.
\<close>

theorem DH1080Ctx_init_accepts:
  "DH1080Ctx_init cbc draws =
     (case find (\<lambda>r. spec_keypair_ok (bytes2int r)) draws of
        None \<Rightarrow> None
      | Some r \<Rightarrow> Some \<lparr>ctx_public = g_dh1080 ^ bytes2int r mod p_dh1080,
                          ctx_private = bytes2int r, ctx_secret = 0, ctx_state = 0,
                          ctx_cbc = cbc\<rparr>)"
  by (simp add: DH1080Ctx_init_def DH1080Ctx_loop_find split: option.splits)

section \<open>The state of a context\<close>

lemma dh1080_unpack_body_result:
  "fst (dh1080_unpack_body legacy msg ctx) = Inl ValueError \<or>
   fst (dh1080_unpack_body legacy msg ctx) = Inr True"
  by (simp add: dh1080_unpack_body_def Let_def split: list.splits sum.splits)










text \<open>
  Claim C10. \<open>dh1080_unpack\<close> raises or returns \<^verbatim>\<open>True\<close>: the branch of the caller
  for a false result is never entered.
\<close>

theorem dh1080_unpack_raises_or_True:
  "(fst (dh1080_unpack msg ctx) = Inl ValueError \<or> fst (dh1080_unpack msg ctx) = Inr True) \<and>
   unpack_failed_branch msg ctx = False"
  using dh1080_unpack_body_result [of True msg "ctx\<lparr>ctx_state := 1\<rparr>"]
    dh1080_unpack_body_result [of False msg "ctx\<lparr>ctx_state := 1\<rparr>"]
  by (auto simp: dh1080_unpack_def unpack_failed_branch_def)

section \<open>The decrypt-side rule\<close>

lemma dropWhile_zero_split:
  "\<exists>a. xs = replicate a (0::nat) @ dropWhile (\<lambda>x. x = 0) xs"
proof (induction xs)
  case Nil
  then show ?case by simp
next
  case (Cons x xs)
  show ?case
  proof (cases "x = 0")
    case True
    from Cons.IH obtain a where "xs = replicate a 0 @ dropWhile (\<lambda>x. x = 0) xs" ..
    then have "x # xs = replicate (Suc a) 0 @ dropWhile (\<lambda>x. x = 0) (x # xs)"
      using True by simp
    then show ?thesis ..
  next
    case False
    then have "x # xs = replicate 0 0 @ dropWhile (\<lambda>x. x = 0) (x # xs)" by simp
    then show ?thesis ..
  qed
qed

lemma bytes_strip_split:
  "\<exists>a b. plain = replicate a 0 @ bytes_strip 0 plain @ replicate b 0"
proof -
  obtain a where a: "plain = replicate a 0 @ dropWhile (\<lambda>x. x = 0) plain"
    using dropWhile_zero_split [of plain] ..
  define ys where "ys = dropWhile (\<lambda>x. x = 0) plain"
  obtain b where b: "rev ys = replicate b 0 @ dropWhile (\<lambda>x. x = 0) (rev ys)"
    using dropWhile_zero_split [of "rev ys"] ..
  have "ys = rev (rev ys)" by simp
  also have "\<dots> = rev (dropWhile (\<lambda>x. x = 0) (rev ys)) @ replicate b 0"
    by (subst b) simp
  finally have "ys = bytes_strip 0 plain @ replicate b 0"
    by (simp add: bytes_strip_def ys_def)
  with a show ?thesis unfolding ys_def [symmetric] by auto
qed

lemma bytes_strip_ends:
  "bytes_strip 0 plain = [] \<or> (hd (bytes_strip 0 plain) \<noteq> 0 \<and> last (bytes_strip 0 plain) \<noteq> 0)"
proof (cases "bytes_strip 0 plain = []")
  case True
  then show ?thesis by simp
next
  case False
  define ys where "ys = dropWhile (\<lambda>x. x = 0) plain"
  define zs where "zs = dropWhile (\<lambda>x. x = 0) (rev ys)"
  have strip: "bytes_strip 0 plain = rev zs" by (simp add: bytes_strip_def ys_def zs_def)
  with False have zs: "zs \<noteq> []" by simp
  then have "hd zs \<noteq> 0" unfolding zs_def using hd_dropWhile by blast
  then have l: "last (rev zs) \<noteq> 0" using zs by (simp add: last_rev)
  obtain b where b: "rev ys = replicate b 0 @ zs"
    using dropWhile_zero_split [of "rev ys"] unfolding zs_def ..
  then have "ys = rev zs @ replicate b 0" by (metis rev_append rev_replicate rev_rev_ident)
  then have ys: "ys \<noteq> []" and "hd ys = hd (rev zs)" using zs by auto
  moreover have "hd ys \<noteq> 0" using ys unfolding ys_def using hd_dropWhile by blast
  ultimately show ?thesis using l strip by simp
qed

text \<open>
  Claim C5, amended. The rule of line 313 strips the zero bytes at both ends of the
  decrypted string, the leading ones as well as the trailing ones, and then removes
  every newline byte of what is left; the other bytes are kept, in their order.
\<close>

theorem strip_plain_both_ends:
  "\<exists>a b mid. plain = replicate a 0 @ mid @ replicate b 0 \<and>
     (mid = [] \<or> (hd mid \<noteq> 0 \<and> last mid \<noteq> 0)) \<and>
     strip_plain plain = filter (\<lambda>x. x \<noteq> 10) mid"
proof -
  obtain a b where "plain = replicate a 0 @ bytes_strip 0 plain @ replicate b 0"
    using bytes_strip_split by blast
  then show ?thesis
    using bytes_strip_ends [of plain]
    by (intro exI [of _ a] exI [of _ b] exI [of _ "bytes_strip 0 plain"])
       (simp add: strip_plain_def bytes_remove_def)
qed

theorem strip_plain_both_ends_witness:
  "(\<exists>a b mid. [0, 72, 10, 105, 0, 0] = replicate a 0 @ mid @ replicate b 0 \<and>
     (mid = [] \<or> (hd mid \<noteq> 0 \<and> last mid \<noteq> 0)) \<and>
     strip_plain [0, 72, 10, 105, 0, 0] = filter (\<lambda>x. x \<noteq> 10) mid) \<and>
   strip_plain [0, 72, 10, 105, 0, 0] = [72, 105]"
  using strip_plain_both_ends [of "[0, 72, 10, 105, 0, 0]"]
  by (simp add: strip_plain_def bytes_remove_def bytes_strip_def)

theorem strip_plain_leading_counterexample:
  "strip_plain [0, 65] = [65] \<and> spec_strip_plain [0, 65] = [0, 65]"
  by (simp add: strip_plain_def bytes_remove_def bytes_strip_def spec_strip_plain_def)

end
